theory Spec2Isabelle
  imports Main "HOL-Library.Sublist"
begin

section \<open>Characters and strings\<close>

text \<open>
  The analyzer works on Python \<open>str\<close> values. The model uses \<^typ>\<open>string\<close> and covers
  ASCII text: the character predicates below are Python's on code points below 128, and a
  character from 128 on is neither whitespace nor a word character and has no other case.
\<close>

definition nl :: char where
  "nl = CHR 0x0A"

definition isspace :: "char \<Rightarrow> bool" where
  \<comment> \<open>\<open>str.isspace\<close> on one ASCII character; this is also the regular expression \<open>\s\<close>\<close>
  "isspace c = (c \<in> set [CHR 0x09, CHR 0x0A, CHR 0x0B, CHR 0x0C, CHR 0x0D,
                            CHR 0x1C, CHR 0x1D, CHR 0x1E, CHR 0x1F, CHR 0x20])"

definition lower :: "char \<Rightarrow> char" where
  "lower c = (case map_of (zip ''ABCDEFGHIJKLMNOPQRSTUVWXYZ'' ''abcdefghijklmnopqrstuvwxyz'') c of
                None \<Rightarrow> c | Some l \<Rightarrow> l)"

definition upper :: "char \<Rightarrow> char" where
  "upper c = (case map_of (zip ''abcdefghijklmnopqrstuvwxyz'' ''ABCDEFGHIJKLMNOPQRSTUVWXYZ'') c of
                None \<Rightarrow> c | Some u \<Rightarrow> u)"

definition str_lower :: "string \<Rightarrow> string" where
  \<comment> \<open>\<open>s.lower()\<close>\<close>
  "str_lower s = map lower s"

definition is_word :: "char \<Rightarrow> bool" where
  \<comment> \<open>the regular expression \<open>\w\<close>\<close>
  "is_word c = (c \<in> set ''abcdefghijklmnopqrstuvwxyzABCDEFGHIJKLMNOPQRSTUVWXYZ0123456789_'')"

definition strip :: "string \<Rightarrow> string" where
  \<comment> \<open>\<open>s.strip()\<close>\<close>
  "strip s = rev (dropWhile isspace (rev (dropWhile isspace s)))"

fun split_acc :: "string \<Rightarrow> string \<Rightarrow> string list" where
  "split_acc cur [] = [cur]"
| "split_acc cur (c # cs) = (if c = nl then cur # split_acc [] cs else split_acc (cur @ [c]) cs)"

definition split_lines :: "string \<Rightarrow> string list" where
  \<comment> \<open>\<open>text.split('\n')\<close>\<close>
  "split_lines s = split_acc [] s"

fun str_in :: "string \<Rightarrow> string \<Rightarrow> bool" where
  \<comment> \<open>\<open>sub in s\<close> on strings: contiguous containment\<close>
  "str_in sub [] = (sub = [])"
| "str_in sub (c # cs) = (prefix sub (c # cs) \<or> str_in sub cs)"

section \<open>Regular expressions\<close>

text \<open>
  Every pattern of the analyzer is a concatenation of word boundaries, groups of literal
  alternatives, and character classes taken once, once or more, or any number of times.
  Capturing groups only record text and are flattened. All searches are made with
  \<open>re.IGNORECASE\<close>, which is built into the matcher.
\<close>

datatype cclass =
    Space                 \<comment> \<open>\<open>\s\<close>\<close>
  | Range char char       \<comment> \<open>\<open>[A-Z]\<close>, \<open>[a-z]\<close>\<close>
  | OneOf string          \<comment> \<open>\<open>[:]\<close>\<close>
  | NoneOf string         \<comment> \<open>\<open>[^.!?]\<close>\<close>

datatype atom =
    WordB                 \<comment> \<open>\<open>\b\<close>\<close>
  | Lits "string list"    \<comment> \<open>\<open>(?:w1|w2|...)\<close>, or one literal\<close>
  | One cclass
  | Plus cclass           \<comment> \<open>\<open>c+\<close>\<close>
  | Star cclass           \<comment> \<open>\<open>c*\<close>\<close>

type_synonym pattern = "atom list"

definition in_range :: "char \<Rightarrow> char \<Rightarrow> char \<Rightarrow> bool" where
  "in_range lo hi c = ((of_char lo :: nat) \<le> of_char c \<and> (of_char c :: nat) \<le> of_char hi)"

fun in_class :: "cclass \<Rightarrow> char \<Rightarrow> bool" where
  "in_class Space c = isspace c"
| "in_class (Range lo hi) c = (in_range lo hi (lower c) \<or> in_range lo hi (upper c))"
| "in_class (OneOf cs) c = (lower c \<in> set cs \<or> upper c \<in> set cs)"
| "in_class (NoneOf cs) c = (\<not> (lower c \<in> set cs \<or> upper c \<in> set cs))"

fun ci_prefix :: "string \<Rightarrow> string \<Rightarrow> bool" where
  "ci_prefix [] s = True"
| "ci_prefix (a # w) [] = False"
| "ci_prefix (a # w) (c # s) = (lower a = lower c \<and> ci_prefix w s)"

definition boundary :: "char option \<Rightarrow> string \<Rightarrow> bool" where
  \<comment> \<open>a word character on exactly one side of the position\<close>
  "boundary prev s =
     ((case prev of None \<Rightarrow> False | Some c \<Rightarrow> is_word c) \<noteq>
      (case s of [] \<Rightarrow> False | c # _ \<Rightarrow> is_word c))"

definition prev_after :: "char option \<Rightarrow> string \<Rightarrow> char option" where
  "prev_after prev u = (if u = [] then prev else Some (last u))"

function match :: "pattern \<Rightarrow> char option \<Rightarrow> string \<Rightarrow> bool" where
  "match [] prev s = True"
| "match (WordB # r) prev s = (boundary prev s \<and> match r prev s)"
| "match (Lits ws # r) prev s =
     list_ex (\<lambda>w. ci_prefix w s \<and>
                   match r (prev_after prev (take (length w) s)) (drop (length w) s)) ws"
| "match (One c # r) prev s =
     (case s of [] \<Rightarrow> False | x # xs \<Rightarrow> in_class c x \<and> match r (Some x) xs)"
| "match (Plus c # r) prev s =
     (case s of [] \<Rightarrow> False | x # xs \<Rightarrow> in_class c x \<and> match (Star c # r) (Some x) xs)"
| "match (Star c # r) prev s =
     (match r prev s \<or>
      (case s of [] \<Rightarrow> False | x # xs \<Rightarrow> in_class c x \<and> match (Star c # r) (Some x) xs))"
  by pat_completeness auto
termination
  by (relation "measure (\<lambda>(r, prev, s). length r + length s)") auto

fun search_from :: "pattern \<Rightarrow> char option \<Rightarrow> string \<Rightarrow> bool" where
  "search_from r prev [] = match r prev []"
| "search_from r prev (x # xs) = (match r prev (x # xs) \<or> search_from r (Some x) xs)"

definition re_search :: "pattern \<Rightarrow> string \<Rightarrow> bool" where
  \<comment> \<open>whether \<open>re.search(pattern, text, re.IGNORECASE)\<close> finds a match\<close>
  "re_search r s = search_from r None s"

section \<open>The analyzer\<close>

record MeetingNotesAnalyzer =
  action_patterns :: "pattern list"
  decision_patterns :: "pattern list"
  question_patterns :: "pattern list"

definition not_term :: cclass where
  "not_term = NoneOf ''.!?''"

definition init :: MeetingNotesAnalyzer where
  \<comment> \<open>\<open>MeetingNotesAnalyzer.__init__\<close>\<close>
  "init = \<lparr>
     action_patterns = [
       [WordB, Lits [''will'', ''should'', ''must'', ''need to'', ''have to'', ''going to''],
        Plus Space, Plus not_term],
       [WordB, Lits [''action'', ''task'', ''todo'', ''follow up'', ''next step''],
        One (OneOf '':''), Star Space, Plus not_term],
       [WordB, One (Range CHR ''A'' CHR ''Z''), Plus (Range CHR ''a'' CHR ''z''), Plus Space,
        Lits [''will'', ''should'', ''must'', ''needs to''], Plus Space, Plus not_term],
       [WordB, Lits [''assign'', ''delegate'', ''responsible for''], Plus Space, Plus not_term]],
     decision_patterns = [
       [WordB, Lits [''decided'', ''agreed'', ''resolved'', ''concluded'', ''determined''],
        Plus Space, Lits [''to'', ''that''], Plus Space, Plus not_term],
       [WordB, Lits [''we'', ''they'', ''it was''], Plus Space,
        Lits [''decided'', ''agreed'', ''resolved''], Plus Space, Plus not_term],
       [WordB, Lits [''decision'', ''conclusion'', ''agreement''],
        One (OneOf '':''), Star Space, Plus not_term],
       [WordB, Lits [''final'', ''official''], Plus Space,
        Lits [''decision'', ''call'', ''verdict''], Plus Space, Plus not_term]],
     question_patterns = [
       [Star not_term, Lits [''?'']],
       [WordB, Lits [''question'', ''ask'', ''wondering'', ''unclear'', ''unsure''], Plus Space,
        Lits [''about'', ''if'', ''whether''], Plus Space, Plus not_term],
       [WordB, Lits [''what'', ''how'', ''when'', ''where'', ''why'', ''who''], Plus Space,
        Plus not_term, Lits [''?'']],
       [WordB, Lits [''need to clarify'', ''need clarification'', ''open item''], Plus Space,
        Plus not_term]] \<rparr>"

fun check_patterns :: "string \<Rightarrow> pattern list \<Rightarrow> bool" where
  "check_patterns txt [] = False"
| "check_patterns txt (p # ps) = (if re_search p txt then True else check_patterns txt ps)"

subsection \<open>Results\<close>

text \<open>
  The result is a Python dict from category names to lists of strings. It is modelled by
  an association list in insertion order; reading a key that is not there raises
  \<open>KeyError\<close>, indexing a sequence out of range raises \<open>IndexError\<close>.
\<close>

datatype error = KeyError | IndexError

type_synonym results = "(string \<times> string list) list"

definition new_results :: results where
  \<comment> \<open>\<open>{"actions": [], "decisions": [], "questions": []}\<close>\<close>
  "new_results = [(''actions'', []), (''decisions'', []), (''questions'', [])]"

fun dict_append :: "string \<Rightarrow> string \<Rightarrow> results \<Rightarrow> error + results" where
  \<comment> \<open>\<open>results[key].append(v)\<close>\<close>
  "dict_append key v [] = Inl KeyError"
| "dict_append key v ((k, vs) # rs) =
     (if k = key then Inr ((k, vs @ [v]) # rs)
      else (case dict_append key v rs of Inl e \<Rightarrow> Inl e | Inr rs' \<Rightarrow> Inr ((k, vs) # rs')))"

subsection \<open>The pattern-matching strategy\<close>

fun patterns_loop :: "MeetingNotesAnalyzer \<Rightarrow> string list \<Rightarrow> results \<Rightarrow> error + results" where
  "patterns_loop self [] results = Inr results"
| "patterns_loop self (l # lines) results =
     (let line = strip l in
      if line = [] then patterns_loop self lines results
      else if check_patterns line (question_patterns self) then
        (case dict_append ''questions'' line results of
           Inl e \<Rightarrow> Inl e | Inr results' \<Rightarrow> patterns_loop self lines results')
      else if check_patterns line (decision_patterns self) then
        (case dict_append ''decisions'' line results of
           Inl e \<Rightarrow> Inl e | Inr results' \<Rightarrow> patterns_loop self lines results')
      else if check_patterns line (action_patterns self) then
        (case dict_append ''actions'' line results of
           Inl e \<Rightarrow> Inl e | Inr results' \<Rightarrow> patterns_loop self lines results')
      else patterns_loop self lines results)"

definition analyze_with_patterns :: "MeetingNotesAnalyzer \<Rightarrow> string \<Rightarrow> error + results" where
  "analyze_with_patterns self txt = patterns_loop self (split_lines txt) new_results"

subsection \<open>The linguistic annotation\<close>

text \<open>
  The spaCy pipeline is not part of the program; it is a parameter of the model. A token
  carries the attributes the analyzer reads. A pipeline gives, for a text, the texts of the
  sentence spans of its document (\<open>sent.text for sent in nlp(text).sents\<close>) and the tokens of
  its document. Both are functions of the text: the loaded pipeline is read-only.
  The module-level pair \<open>SPACY_AVAILABLE\<close>, \<open>nlp\<close> is an \<open>nlp option\<close>: \<open>None\<close> when
  the import or the loading of the data failed.
\<close>

record token =
  tok_text :: string
  tok_pos :: string
  tok_tag :: string
  tok_lemma :: string
  tok_ent_type :: string

record nlp =
  sents :: "string \<Rightarrow> string list"
  tokens :: "string \<Rightarrow> token list"

definition doc_get :: "token list \<Rightarrow> nat \<Rightarrow> error + token" where
  \<comment> \<open>\<open>doc[i]\<close> for a non-negative index\<close>
  "doc_get doc i = (if i < length doc then Inr (doc ! i) else Inl IndexError)"

definition question_words :: "string list" where
  "question_words = [''what'', ''how'', ''when'', ''where'', ''why'', ''who'', ''which'', ''whose'']"

definition uncertainty_phrases :: "string list" where
  "uncertainty_phrases = [''unclear'', ''unsure'', ''not sure'', ''question'', ''wondering'',
     ''need clarification'', ''open item'', ''to be determined'', ''tbd'']"

definition aux_verbs :: "string list" where
  "aux_verbs = [''do'', ''does'', ''did'', ''can'', ''could'', ''will'', ''would'', ''should'']"

definition is_question :: "string \<Rightarrow> token list \<Rightarrow> error + bool" where
  "is_question sentence doc =
     (if str_in ''?'' sentence then Inr True
      else
        case (if doc \<noteq> [] then
                (case doc_get doc 0 of Inl e \<Rightarrow> Inl e | Inr t \<Rightarrow> Inr (str_lower (tok_text t)))
              else Inr []) of
          Inl e \<Rightarrow> Inl e
        | Inr first_token \<Rightarrow>
            if first_token \<in> set question_words then Inr True
            else if list_ex (\<lambda>phrase. str_in phrase (str_lower sentence)) uncertainty_phrases
              then Inr True
            else if doc = [] then Inr False
            else
              (case doc_get doc 0 of
                 Inl e \<Rightarrow> Inl e
               | Inr t \<Rightarrow>
                   if str_lower (tok_text t) \<in> set aux_verbs then
                     (case doc_get doc 0 of
                        Inl e \<Rightarrow> Inl e
                      | Inr t' \<Rightarrow> if tok_pos t' = ''AUX'' then Inr True else Inr False)
                   else Inr False))"

definition decision_verbs :: "string list" where
  "decision_verbs = [''decided'', ''agreed'', ''resolved'', ''concluded'', ''determined'',
     ''approved'', ''confirmed'', ''finalized'', ''settled'']"

definition decision_nouns :: "string list" where
  "decision_nouns = [''decision'', ''agreement'', ''resolution'', ''conclusion'',
     ''approval'', ''confirmation'', ''verdict'', ''ruling'']"

definition passive_indicators :: "string list" where
  "passive_indicators = [''it was decided'', ''it was agreed'', ''it was resolved'']"

fun decision_loop :: "token list \<Rightarrow> error + bool" where
  \<comment> \<open>the loop over the tokens; \<open>Inr False\<close> when it ends without returning\<close>
  "decision_loop [] = Inr False"
| "decision_loop (t # rest) =
     (if tok_pos t = ''VERB'' \<and> tok_tag t \<in> set [''VBD'', ''VBN''] then
        (if tok_lemma t \<in> set decision_verbs then Inr True else decision_loop rest)
      else decision_loop rest)"

definition is_decision :: "string \<Rightarrow> token list \<Rightarrow> error + bool" where
  "is_decision sentence doc =
     (let sentence_lower = str_lower sentence in
      if list_ex (\<lambda>verb. str_in verb sentence_lower) decision_verbs then Inr True
      else if list_ex (\<lambda>noun. str_in noun sentence_lower) decision_nouns then Inr True
      else if list_ex (\<lambda>indicator. str_in indicator sentence_lower) passive_indicators
        then Inr True
      else decision_loop doc)"

definition action_indicators :: "string list" where
  "action_indicators = [''will'', ''should'', ''must'', ''need to'', ''have to'', ''going to'',
     ''action'', ''task'', ''todo'', ''assign'', ''responsible'', ''follow up'',
     ''next step'', ''deliverable'', ''owner'']"

definition modal_obligations :: "string list" where
  "modal_obligations = [''should'', ''must'', ''need'', ''have'']"

fun person_loop :: "token list \<Rightarrow> nat \<Rightarrow> token list \<Rightarrow> error + bool" where
  \<comment> \<open>\<open>for i, token in enumerate(doc)\<close>, fifth check; the last argument is \<open>doc[i:]\<close>\<close>
  "person_loop doc i [] = Inr False"
| "person_loop doc i (t # rest) =
     (if tok_ent_type t = ''PERSON'' \<and> i + 1 < length doc then
        (case doc_get doc (i + 1) of
           Inl e \<Rightarrow> Inl e
         | Inr next_token \<Rightarrow>
             if str_lower (tok_text next_token) \<in> set [''will'', ''should'', ''must'', ''to'']
             then Inr True
             else person_loop doc (i + 1) rest)
      else person_loop doc (i + 1) rest)"

fun modal_loop :: "token list \<Rightarrow> token list \<Rightarrow> error + bool" where
  \<comment> \<open>fourth check, then the fifth\<close>
  "modal_loop doc [] = person_loop doc 0 doc"
| "modal_loop doc (t # rest) =
     (if str_lower (tok_text t) \<in> set modal_obligations \<and> tok_pos t \<in> set [''VERB'', ''AUX'']
      then Inr True
      else modal_loop doc rest)"

fun will_loop :: "token list \<Rightarrow> nat \<Rightarrow> token list \<Rightarrow> error + bool" where
  \<comment> \<open>third check, then the fourth\<close>
  "will_loop doc i [] = modal_loop doc doc"
| "will_loop doc i (t # rest) =
     (if str_lower (tok_text t) = ''will'' \<and> i + 1 < length doc then
        (case doc_get doc (i + 1) of
           Inl e \<Rightarrow> Inl e
         | Inr next_token \<Rightarrow>
             if tok_pos next_token = ''VERB'' then Inr True else will_loop doc (i + 1) rest)
      else will_loop doc (i + 1) rest)"

definition is_action :: "string \<Rightarrow> token list \<Rightarrow> error + bool" where
  "is_action sentence doc =
     (let sentence_lower = str_lower sentence in
      if list_ex (\<lambda>indicator. str_in indicator sentence_lower) action_indicators then Inr True
      else if doc \<noteq> [] \<and> length doc > 0 then
        (case doc_get doc 0 of
           Inl e \<Rightarrow> Inl e
         | Inr first_token \<Rightarrow>
             if tok_pos first_token = ''VERB'' \<and> tok_tag first_token = ''VB'' then Inr True
             else will_loop doc 0 doc)
      else will_loop doc 0 doc)"

subsection \<open>The annotation-based strategy\<close>

fun fromkeys :: "string list \<Rightarrow> string list \<Rightarrow> string list" where
  \<comment> \<open>\<open>dict.fromkeys\<close>: the keys inserted one by one, the first argument being the keys so far\<close>
  "fromkeys ks [] = ks"
| "fromkeys ks (x # xs) = fromkeys (if x \<in> set ks then ks else ks @ [x]) xs"

definition list_fromkeys :: "string list \<Rightarrow> string list" where
  \<comment> \<open>\<open>list(dict.fromkeys(xs))\<close>\<close>
  "list_fromkeys xs = fromkeys [] xs"

fun spacy_loop :: "nlp \<Rightarrow> string list \<Rightarrow> results \<Rightarrow> error + results" where
  "spacy_loop nlp [] results = Inr results"
| "spacy_loop nlp (sentence # sentences) results =
     (let sentence_doc = tokens nlp sentence in
      case is_question sentence sentence_doc of
        Inl e \<Rightarrow> Inl e
      | Inr is_q \<Rightarrow>
      case is_decision sentence sentence_doc of
        Inl e \<Rightarrow> Inl e
      | Inr is_d \<Rightarrow>
      case is_action sentence sentence_doc of
        Inl e \<Rightarrow> Inl e
      | Inr is_a \<Rightarrow>
          if is_q then
            (case dict_append ''questions'' sentence results of
               Inl e \<Rightarrow> Inl e | Inr results' \<Rightarrow> spacy_loop nlp sentences results')
          else if is_d then
            (case dict_append ''decisions'' sentence results of
               Inl e \<Rightarrow> Inl e | Inr results' \<Rightarrow> spacy_loop nlp sentences results')
          else if is_a then
            (case dict_append ''actions'' sentence results of
               Inl e \<Rightarrow> Inl e | Inr results' \<Rightarrow> spacy_loop nlp sentences results')
          else spacy_loop nlp sentences results)"

definition analyze_with_spacy ::
  "MeetingNotesAnalyzer \<Rightarrow> nlp option \<Rightarrow> string \<Rightarrow> error + results" where
  "analyze_with_spacy self spacy txt =
     (case spacy of
        None \<Rightarrow> analyze_with_patterns self txt
      | Some nlp \<Rightarrow>
          (let sentences = filter (\<lambda>s. s \<noteq> []) (map strip (sents nlp txt)) in
           case spacy_loop nlp sentences new_results of
             Inl e \<Rightarrow> Inl e
           | Inr results \<Rightarrow> Inr (map (\<lambda>(key, vs). (key, list_fromkeys vs)) results)))"

section \<open>Notions used in the statements\<close>

text \<open>
  The units of a text: the stripped, non-empty lines for the pattern-matching strategy, the
  stripped, non-empty sentence texts for the annotation-based one.
\<close>

definition line_units :: "string \<Rightarrow> string list" where
  "line_units txt = filter (\<lambda>s. s \<noteq> []) (map strip (split_lines txt))"

definition sentence_units :: "nlp \<Rightarrow> string \<Rightarrow> string list" where
  "sentence_units nlp txt = filter (\<lambda>s. s \<noteq> []) (map strip (sents nlp txt))"

definition three :: "string list \<Rightarrow> string list \<Rightarrow> string list \<Rightarrow> results" where
  \<comment> \<open>the dict with exactly the three category keys\<close>
  "three a d q = [(''actions'', a), (''decisions'', d), (''questions'', q)]"

text \<open>The outcome of the \<open>if\<close>/\<open>elif\<close> chain of each strategy, one predicate per branch.\<close>

definition pat_q :: "MeetingNotesAnalyzer \<Rightarrow> string \<Rightarrow> bool" where
  "pat_q self u = check_patterns u (question_patterns self)"

definition pat_d :: "MeetingNotesAnalyzer \<Rightarrow> string \<Rightarrow> bool" where
  "pat_d self u = (\<not> pat_q self u \<and> check_patterns u (decision_patterns self))"

definition pat_a :: "MeetingNotesAnalyzer \<Rightarrow> string \<Rightarrow> bool" where
  "pat_a self u = (\<not> pat_q self u \<and> \<not> check_patterns u (decision_patterns self)
                    \<and> check_patterns u (action_patterns self))"

definition holds :: "error + bool \<Rightarrow> bool" where
  "holds r = (r = Inr True)"

definition sp_q :: "nlp \<Rightarrow> string \<Rightarrow> bool" where
  "sp_q nlp u = holds (is_question u (tokens nlp u))"

definition sp_d :: "nlp \<Rightarrow> string \<Rightarrow> bool" where
  "sp_d nlp u = (\<not> sp_q nlp u \<and> holds (is_decision u (tokens nlp u)))"

definition sp_a :: "nlp \<Rightarrow> string \<Rightarrow> bool" where
  "sp_a nlp u = (\<not> sp_q nlp u \<and> \<not> holds (is_decision u (tokens nlp u))
                   \<and> holds (is_action u (tokens nlp u)))"

text \<open>
  A small pipeline for concrete runs: the whole text is one sentence, and its document has
  one token, the first word, with no annotation.
\<close>

definition first_word_nlp :: nlp where
  "first_word_nlp = \<lparr>
     sents = (\<lambda>t. [t]),
     tokens = (\<lambda>s. [\<lparr> tok_text = takeWhile (\<lambda>c. \<not> isspace c) s, tok_pos = ''X'',
                       tok_tag = [], tok_lemma = [], tok_ent_type = [] \<rparr>]) \<rparr>"

section \<open>The analysis on a store\<close>

text \<open>
  What can carry over from one call to the next: the attributes of \<open>self\<close>, the module-level
  capability, and the objects on the heap. Here a dict is one heap cell, found by its
  address, and \<open>fresh\<close> is the next unused address. Each method builds its \<open>results\<close> dict
  with a dict display (a new object), appends to it in place, and returns a reference to it.
  The category tests and the pattern search read their arguments only.
\<close>

record store =
  self_analyzer :: MeetingNotesAnalyzer
  spacy_global :: "nlp option"
  heap :: "nat \<Rightarrow> results"
  fresh :: nat

definition alloc_dict :: "store \<Rightarrow> results \<Rightarrow> nat \<times> store" where
  \<comment> \<open>\<open>results = {...}\<close>: a new dict object, and the reference to it\<close>
  "alloc_dict st d = (fresh st, st\<lparr>heap := (heap st)(fresh st := d), fresh := Suc (fresh st)\<rparr>)"

definition append_at :: "store \<Rightarrow> nat \<Rightarrow> string \<Rightarrow> string \<Rightarrow> error + store" where
  \<comment> \<open>\<open>results[key].append(v)\<close> on the dict at address \<open>r\<close>, in place\<close>
  "append_at st r key v =
     (case dict_append key v (heap st r) of
        Inl e \<Rightarrow> Inl e
      | Inr d \<Rightarrow> Inr (st\<lparr>heap := (heap st)(r := d)\<rparr>))"

fun patterns_loop_store :: "store \<Rightarrow> nat \<Rightarrow> string list \<Rightarrow> error + store" where
  "patterns_loop_store st results [] = Inr st"
| "patterns_loop_store st results (l # lines) =
     (let line = strip l in
      if line = [] then patterns_loop_store st results lines
      else if check_patterns line (question_patterns (self_analyzer st)) then
        (case append_at st results ''questions'' line of
           Inl e \<Rightarrow> Inl e | Inr st' \<Rightarrow> patterns_loop_store st' results lines)
      else if check_patterns line (decision_patterns (self_analyzer st)) then
        (case append_at st results ''decisions'' line of
           Inl e \<Rightarrow> Inl e | Inr st' \<Rightarrow> patterns_loop_store st' results lines)
      else if check_patterns line (action_patterns (self_analyzer st)) then
        (case append_at st results ''actions'' line of
           Inl e \<Rightarrow> Inl e | Inr st' \<Rightarrow> patterns_loop_store st' results lines)
      else patterns_loop_store st results lines)"

definition analyze_with_patterns_store :: "store \<Rightarrow> string \<Rightarrow> error + nat \<times> store" where
  "analyze_with_patterns_store st txt =
     (case alloc_dict st new_results of
        (results, st1) \<Rightarrow>
          (case patterns_loop_store st1 results (split_lines txt) of
             Inl e \<Rightarrow> Inl e
           | Inr st2 \<Rightarrow> Inr (results, st2)))"

fun spacy_loop_store :: "store \<Rightarrow> nlp \<Rightarrow> nat \<Rightarrow> string list \<Rightarrow> error + store" where
  "spacy_loop_store st nlp results [] = Inr st"
| "spacy_loop_store st nlp results (sentence # sentences) =
     (let sentence_doc = tokens nlp sentence in
      case is_question sentence sentence_doc of
        Inl e \<Rightarrow> Inl e
      | Inr is_q \<Rightarrow>
      case is_decision sentence sentence_doc of
        Inl e \<Rightarrow> Inl e
      | Inr is_d \<Rightarrow>
      case is_action sentence sentence_doc of
        Inl e \<Rightarrow> Inl e
      | Inr is_a \<Rightarrow>
          if is_q then
            (case append_at st results ''questions'' sentence of
               Inl e \<Rightarrow> Inl e | Inr st' \<Rightarrow> spacy_loop_store st' nlp results sentences)
          else if is_d then
            (case append_at st results ''decisions'' sentence of
               Inl e \<Rightarrow> Inl e | Inr st' \<Rightarrow> spacy_loop_store st' nlp results sentences)
          else if is_a then
            (case append_at st results ''actions'' sentence of
               Inl e \<Rightarrow> Inl e | Inr st' \<Rightarrow> spacy_loop_store st' nlp results sentences)
          else spacy_loop_store st nlp results sentences)"

definition analyze_with_spacy_store :: "store \<Rightarrow> string \<Rightarrow> error + nat \<times> store" where
  "analyze_with_spacy_store st txt =
     (case spacy_global st of
        None \<Rightarrow> analyze_with_patterns_store st txt
      | Some nlp \<Rightarrow>
          (case alloc_dict st new_results of
             (results, st1) \<Rightarrow>
               (let sentences = filter (\<lambda>s. s \<noteq> []) (map strip (sents nlp txt)) in
                case spacy_loop_store st1 nlp results sentences of
                  Inl e \<Rightarrow> Inl e
                | Inr st2 \<Rightarrow>
                    Inr (results,
                         st2\<lparr>heap := (heap st2)
                               (results := map (\<lambda>(key, vs). (key, list_fromkeys vs))
                                             (heap st2 results))\<rparr>))))"

text \<open>Writing the outcome of a pure run into the cell of a dict.\<close>

definition put :: "store \<Rightarrow> nat \<Rightarrow> error + results \<Rightarrow> error + store" where
  "put st r x = (case x of Inl e \<Rightarrow> Inl e | Inr d \<Rightarrow> Inr (st\<lparr>heap := (heap st)(r := d)\<rparr>))"

section \<open>The loops, characterised\<close>

lemma dict_append_three:
  "dict_append ''questions'' v (three a d q) = Inr (three a d (q @ [v]))"
  "dict_append ''decisions'' v (three a d q) = Inr (three a (d @ [v]) q)"
  "dict_append ''actions'' v (three a d q) = Inr (three (a @ [v]) d q)"
  by (simp_all add: three_def)

lemma patterns_loop_three:
  "patterns_loop self ls (three a d q) =
     Inr (three (a @ filter (pat_a self) (filter (\<lambda>s. s \<noteq> []) (map strip ls)))
                (d @ filter (pat_d self) (filter (\<lambda>s. s \<noteq> []) (map strip ls)))
                (q @ filter (pat_q self) (filter (\<lambda>s. s \<noteq> []) (map strip ls))))"
proof (induction ls arbitrary: a d q)
  case Nil
  then show ?case by simp
next
  case (Cons l ls)
  show ?case
    by (simp add: Let_def dict_append_three Cons.IH pat_q_def pat_d_def pat_a_def)
qed

lemma analyze_with_patterns_three:
  "analyze_with_patterns self txt =
     Inr (three (filter (pat_a self) (line_units txt))
                (filter (pat_d self) (line_units txt))
                (filter (pat_q self) (line_units txt)))"
  using patterns_loop_three [of self "split_lines txt" "[]" "[]" "[]"]
  by (simp add: analyze_with_patterns_def line_units_def new_results_def three_def)

lemma doc_get_0: "doc \<noteq> [] \<Longrightarrow> doc_get doc 0 = Inr (doc ! 0)"
  by (simp add: doc_get_def)

lemma is_question_total: "\<exists>b. is_question s doc = Inr b"
  by (cases "doc = []") (auto simp add: is_question_def doc_get_0)

lemma decision_loop_total: "\<exists>b. decision_loop doc = Inr b"
  by (induction doc) auto

lemma is_decision_total: "\<exists>b. is_decision s doc = Inr b"
  by (auto simp add: is_decision_def Let_def decision_loop_total)

lemma person_loop_total: "\<exists>b. person_loop doc i rest = Inr b"
  by (induction rest arbitrary: i) (auto simp add: doc_get_def)

lemma modal_loop_total: "\<exists>b. modal_loop doc rest = Inr b"
  by (induction rest) (auto simp add: person_loop_total)

lemma will_loop_total: "\<exists>b. will_loop doc i rest = Inr b"
  by (induction rest arbitrary: i) (auto simp add: doc_get_def modal_loop_total)

lemma is_action_total: "\<exists>b. is_action s doc = Inr b"
  by (cases "doc = []") (auto simp add: is_action_def Let_def doc_get_0 will_loop_total)

lemma spacy_loop_three:
  "spacy_loop nlp ss (three a d q) =
     Inr (three (a @ filter (sp_a nlp) ss) (d @ filter (sp_d nlp) ss) (q @ filter (sp_q nlp) ss))"
proof (induction ss arbitrary: a d q)
  case Nil
  then show ?case by simp
next
  case (Cons s ss)
  obtain bq where bq: "is_question s (tokens nlp s) = Inr bq"
    using is_question_total by blast
  obtain bd where bd: "is_decision s (tokens nlp s) = Inr bd"
    using is_decision_total by blast
  obtain ba where ba: "is_action s (tokens nlp s) = Inr ba"
    using is_action_total by blast
  show ?case
    by (simp add: Let_def bq bd ba dict_append_three Cons.IH sp_q_def sp_d_def sp_a_def holds_def)
qed

lemma set_fromkeys: "set (fromkeys ks xs) = set ks \<union> set xs"
  by (induction xs arbitrary: ks) auto

lemma distinct_fromkeys: "distinct ks \<Longrightarrow> distinct (fromkeys ks xs)"
  by (induction xs arbitrary: ks) auto

lemma fromkeys_snoc:
  "fromkeys ks (xs @ [x]) =
     (if x \<in> set (fromkeys ks xs) then fromkeys ks xs else fromkeys ks xs @ [x])"
  by (induction xs arbitrary: ks) auto

lemma set_list_fromkeys: "set (list_fromkeys xs) = set xs"
  by (simp add: list_fromkeys_def set_fromkeys)

lemma distinct_list_fromkeys: "distinct (list_fromkeys xs)"
  by (simp add: list_fromkeys_def distinct_fromkeys)

lemma analyze_with_spacy_three:
  "analyze_with_spacy self (Some nlp) txt =
     Inr (three (list_fromkeys (filter (sp_a nlp) (sentence_units nlp txt)))
                (list_fromkeys (filter (sp_d nlp) (sentence_units nlp txt)))
                (list_fromkeys (filter (sp_q nlp) (sentence_units nlp txt))))"
  using spacy_loop_three [of nlp "sentence_units nlp txt" "[]" "[]" "[]"]
  by (simp add: analyze_with_spacy_def sentence_units_def new_results_def three_def)

lemma strip_all_space: "list_all isspace s \<Longrightarrow> strip s = []"
proof -
  assume "list_all isspace s"
  then have d: "dropWhile isspace s = []" by (induction s) auto
  show ?thesis unfolding strip_def d by simp
qed

lemma set_split_acc: "l \<in> set (split_acc cur s) \<Longrightarrow> set l \<subseteq> set cur \<union> set s"
  by (induction s arbitrary: cur) (auto split: if_splits, fastforce+)

lemma line_units_space: "list_all isspace s \<Longrightarrow> line_units s = []"
proof -
  assume a: "list_all isspace s"
  have "\<And>l. l \<in> set (split_lines s) \<Longrightarrow> strip l = []"
  proof -
    fix l assume "l \<in> set (split_lines s)"
    then have "set l \<subseteq> set s"
      using set_split_acc [of l "[]" s] by (simp add: split_lines_def)
    with a have "list_all isspace l" by (auto simp add: list_all_iff)
    then show "strip l = []" by (rule strip_all_space)
  qed
  then show ?thesis by (simp add: line_units_def filter_empty_conv)
qed

lemma str_in_sublist: "str_in sub s \<longleftrightarrow> sublist sub s"
  by (induction s) (simp_all add: sublist_Cons_right)

lemma list_fromkeys_first_occurrence: "list_fromkeys xs = rev (remdups (rev xs))"
proof (induction xs rule: rev_induct)
  case Nil
  then show ?case by (simp add: list_fromkeys_def)
next
  case (snoc x xs)
  then show ?case
    unfolding list_fromkeys_def fromkeys_snoc by (simp add: set_fromkeys)
qed

lemma spacy_deduplicates:
  "\<exists>a d q. analyze_with_spacy self (Some nlp) txt = Inr (three a d q) \<and>
     distinct a \<and> distinct d \<and> distinct q"
  by (simp add: analyze_with_spacy_three three_def distinct_list_fromkeys)

lemma sentence_units_space:
  assumes "list_all isspace s" and "list_all (\<lambda>u. sublist u s) (sents nlp s)"
  shows "sentence_units nlp s = []"
proof -
  have "\<And>u. u \<in> set (sents nlp s) \<Longrightarrow> strip u = []"
  proof -
    fix u assume "u \<in> set (sents nlp s)"
    with assms(2) have "sublist u s" by (simp add: list_all_iff)
    then have "set u \<subseteq> set s" by (rule set_mono_sublist)
    with assms(1) have "list_all isspace u" by (auto simp add: list_all_iff)
    then show "strip u = []" by (rule strip_all_space)
  qed
  then show ?thesis by (simp add: sentence_units_def filter_empty_conv)
qed

subsection \<open>The store-level analysis and the pure one\<close>

lemma put_upd: "put (st\<lparr>heap := (heap st)(r := d)\<rparr>) r x = put st r x"
  by (cases x) (simp_all add: put_def)

lemma append_at_then:
  "(case append_at st r k v of Inl e \<Rightarrow> Inl e | Inr st' \<Rightarrow> put st' r (F (heap st' r))) =
     put st r (case dict_append k v (heap st r) of Inl e \<Rightarrow> Inl e | Inr d \<Rightarrow> F d)"
  by (cases "dict_append k v (heap st r)") (simp_all add: append_at_def put_upd, simp add: put_def)

lemma patterns_loop_store_pure:
  "patterns_loop_store st r ls = put st r (patterns_loop (self_analyzer st) ls (heap st r))"
proof (induction ls arbitrary: st)
  case Nil
  then show ?case by (simp add: put_def)
next
  case (Cons l ls)
  have a: "\<And>st'. self_analyzer st' = self_analyzer st \<Longrightarrow>
             patterns_loop_store st' r ls = put st' r (patterns_loop (self_analyzer st) ls (heap st' r))"
    using Cons.IH by simp
  have keep: "\<And>k v st'. append_at st r k v = Inr st' \<Longrightarrow> self_analyzer st' = self_analyzer st"
    by (auto simp add: append_at_def split: sum.splits)
  have step: "\<And>k v. (case append_at st r k v of Inl e \<Rightarrow> Inl e
                          | Inr st' \<Rightarrow> patterns_loop_store st' r ls) =
        put st r (case dict_append k v (heap st r) of Inl e \<Rightarrow> Inl e
                  | Inr d \<Rightarrow> patterns_loop (self_analyzer st) ls d)"
  proof -
    fix k v
    have "(case append_at st r k v of Inl e \<Rightarrow> Inl e | Inr st' \<Rightarrow> patterns_loop_store st' r ls) =
          (case append_at st r k v of Inl e \<Rightarrow> Inl e
           | Inr st' \<Rightarrow> put st' r (patterns_loop (self_analyzer st) ls (heap st' r)))"
      by (cases "append_at st r k v") (simp_all add: a keep)
    then show "(case append_at st r k v of Inl e \<Rightarrow> Inl e
                          | Inr st' \<Rightarrow> patterns_loop_store st' r ls) =
        put st r (case dict_append k v (heap st r) of Inl e \<Rightarrow> Inl e
                  | Inr d \<Rightarrow> patterns_loop (self_analyzer st) ls d)"
      by (simp only: append_at_then)
  qed
  show ?case
    by (simp add: Let_def step Cons.IH)
qed

text \<open>
  The loop appends after what its dict already holds: run on a cell that is not new, it
  gives a different dict. The contents a call returns are those of a run on a new dict.
\<close>

lemma patterns_loop_store_appends:
  assumes "heap st r = three a d q"
  shows "\<exists>st'. patterns_loop_store st r ls = Inr st' \<and>
           heap st' r =
             three (a @ filter (pat_a (self_analyzer st)) (filter (\<lambda>s. s \<noteq> []) (map strip ls)))
                   (d @ filter (pat_d (self_analyzer st)) (filter (\<lambda>s. s \<noteq> []) (map strip ls)))
                   (q @ filter (pat_q (self_analyzer st)) (filter (\<lambda>s. s \<noteq> []) (map strip ls)))"
  by (simp add: patterns_loop_store_pure assms patterns_loop_three put_def)

lemma spacy_loop_store_pure:
  "spacy_loop_store st nlp r ss = put st r (spacy_loop nlp ss (heap st r))"
proof (induction ss arbitrary: st)
  case Nil
  then show ?case by (simp add: put_def)
next
  case (Cons s ss)
  obtain bq where bq: "is_question s (tokens nlp s) = Inr bq"
    using is_question_total by blast
  obtain bd where bd: "is_decision s (tokens nlp s) = Inr bd"
    using is_decision_total by blast
  obtain ba where ba: "is_action s (tokens nlp s) = Inr ba"
    using is_action_total by blast
  have step: "\<And>k v. (case append_at st r k v of Inl e \<Rightarrow> Inl e
                          | Inr st' \<Rightarrow> spacy_loop_store st' nlp r ss) =
        put st r (case dict_append k v (heap st r) of Inl e \<Rightarrow> Inl e
                  | Inr d \<Rightarrow> spacy_loop nlp ss d)"
    by (simp only: Cons.IH append_at_then)
  show ?case
    by (simp add: Let_def bq bd ba step Cons.IH)
qed

lemma analyze_with_patterns_store_pure:
  "analyze_with_patterns_store st txt =
     (case analyze_with_patterns (self_analyzer st) txt of
        Inl e \<Rightarrow> Inl e
      | Inr d \<Rightarrow> Inr (fresh st, st\<lparr>heap := (heap st)(fresh st := d), fresh := Suc (fresh st)\<rparr>))"
  by (cases "analyze_with_patterns (self_analyzer st) txt")
     (simp_all add: analyze_with_patterns_store_def alloc_dict_def patterns_loop_store_pure
      analyze_with_patterns_def put_def)


lemma analyze_with_spacy_store_pure:
  "analyze_with_spacy_store st txt =
     (case analyze_with_spacy (self_analyzer st) (spacy_global st) txt of
        Inl e \<Rightarrow> Inl e
      | Inr d \<Rightarrow> Inr (fresh st, st\<lparr>heap := (heap st)(fresh st := d), fresh := Suc (fresh st)\<rparr>))"
proof (cases "spacy_global st")
  case None
  then show ?thesis
    by (simp add: analyze_with_spacy_store_def analyze_with_spacy_def
        analyze_with_patterns_store_pure)
next
  case (Some nlp)
  show ?thesis
    by (cases "spacy_loop nlp (filter (\<lambda>s. s \<noteq> []) (map strip (sents nlp txt))) new_results")
       (simp_all add: analyze_with_spacy_store_def analyze_with_spacy_def Some alloc_dict_def
        spacy_loop_store_pure put_def Let_def)
qed

subsection \<open>The surface checks\<close>

lemma list_ex_str_in: "list_ex (\<lambda>k. str_in k s) ks \<longleftrightarrow> (\<exists>k\<in>set ks. sublist k s)"
  by (simp add: list_ex_iff str_in_sublist)

lemma is_decision_iff:
  "is_decision s doc = Inr True \<longleftrightarrow>
     (\<exists>k\<in>set (decision_verbs @ decision_nouns @ passive_indicators). sublist k (str_lower s)) \<or>
     decision_loop doc = Inr True"
  unfolding list_ex_str_in [symmetric]
  by (auto simp add: is_decision_def Let_def)

lemma no_indicator_in_empty: "\<not> list_ex (\<lambda>k. str_in k []) action_indicators"
  by (simp add: action_indicators_def)

lemma is_action_iff:
  "is_action s doc = Inr True \<longleftrightarrow>
     (\<exists>k\<in>set action_indicators. sublist k (str_lower s)) \<or> is_action [] doc = Inr True"
  unfolding list_ex_str_in [symmetric]
  using no_indicator_in_empty
  by (simp add: is_action_def Let_def str_lower_def)

lemma is_action_empty_doc: "is_action [] [] = Inr False"
  using no_indicator_in_empty by (simp add: is_action_def Let_def str_lower_def)

subsection \<open>The pattern-matching strategy on three plain sentences\<close>

lemma patterns_john:
  "analyze_with_patterns init ''John will send the report by Monday.'' =
     Inr [(''actions'', [''John will send the report by Monday.'']), (''decisions'', []),
          (''questions'', [])]"
  by code_simp

lemma patterns_budget:
  "analyze_with_patterns init ''What is the budget for Q3?'' =
     Inr [(''actions'', []), (''decisions'', []), (''questions'', [''What is the budget for Q3?''])]"
  by code_simp

lemma patterns_meeting:
  "analyze_with_patterns init ''The meeting started at 9am.'' =
     Inr [(''actions'', []), (''decisions'', []), (''questions'', [])]"
  by code_simp

section \<open>Properties of the analysis\<close>

text \<open>
  C1. De-duplication with first-occurrence order under both strategies. The annotation-based
  strategy removes duplicates before it returns; the pattern-matching strategy returns its
  lists as they were appended. On the two identical lines \<open>Action: update the wiki.\<close> it
  returns that text twice in the actions sequence.
\<close>

theorem patterns_keep_duplicates:
  "analyze_with_patterns init (''Action: update the wiki.'' @ [nl] @ ''Action: update the wiki.'') =
     Inr [(''actions'', [''Action: update the wiki.'', ''Action: update the wiki.'']),
          (''decisions'', []), (''questions'', [])]"
  by code_simp

text \<open>
  C4. Under both strategies the three output sequences of one result are pairwise disjoint:
  no unit's text is in two of them.
\<close>

theorem mutual_exclusivity:
  "(\<exists>a d q. analyze_with_patterns self txt = Inr [(''actions'', a), (''decisions'', d), (''questions'', q)]
      \<and> set a \<inter> set d = {} \<and> set a \<inter> set q = {} \<and> set d \<inter> set q = {}) \<and>
   (\<exists>a d q. analyze_with_spacy self spacy txt = Inr [(''actions'', a), (''decisions'', d), (''questions'', q)]
      \<and> set a \<inter> set d = {} \<and> set a \<inter> set q = {} \<and> set d \<inter> set q = {})"
proof -
  have p: "\<exists>a d q. analyze_with_patterns self txt = Inr [(''actions'', a), (''decisions'', d), (''questions'', q)]
      \<and> set a \<inter> set d = {} \<and> set a \<inter> set q = {} \<and> set d \<inter> set q = {}"
    unfolding analyze_with_patterns_three three_def
    by (auto simp add: pat_a_def pat_d_def)
  have s: "\<exists>a d q. analyze_with_spacy self spacy txt = Inr [(''actions'', a), (''decisions'', d), (''questions'', q)]
      \<and> set a \<inter> set d = {} \<and> set a \<inter> set q = {} \<and> set d \<inter> set q = {}"
  proof (cases spacy)
    case None
    with p show ?thesis by (simp add: analyze_with_spacy_def)
  next
    case (Some nlp)
    show ?thesis
      unfolding Some analyze_with_spacy_three three_def
      by (auto simp add: set_list_fromkeys sp_a_def sp_d_def)
  qed
  from p s show ?thesis by blast
qed

text \<open>
  C6. The three category tests of the annotation-based strategy return a truth value for
  every sentence text and every token sequence, the empty one included: no index is read
  out of range. The test of the pattern-matching strategy, \<open>check_patterns\<close>, has no raising
  branch at all.
\<close>

theorem category_tests_total:
  "(\<exists>b. is_question sentence doc = Inr b) \<and>
   (\<exists>b. is_decision sentence doc = Inr b) \<and>
   (\<exists>b. is_action sentence doc = Inr b)"
  using is_question_total is_decision_total is_action_total by blast

text \<open>
  C7. Without the annotation capability, the annotation-based entry point returns what the
  pattern-matching strategy returns on the same text, and that is a result, not an error.
\<close>

theorem silent_fallback:
  "analyze_with_spacy self None txt = analyze_with_patterns self txt \<and>
   (\<exists>r. analyze_with_patterns self txt = Inr r)"
  by (simp add: analyze_with_spacy_def analyze_with_patterns_three)

text \<open>
  C10. Under both strategies the result is a dict whose keys are exactly \<open>actions\<close>,
  \<open>decisions\<close> and \<open>questions\<close>, each bound to a list of strings.
\<close>

theorem result_keys:
  "(\<exists>r. analyze_with_patterns self txt = Inr r \<and>
        map fst r = [''actions'', ''decisions'', ''questions'']) \<and>
   (\<exists>r. analyze_with_spacy self spacy txt = Inr r \<and>
        map fst r = [''actions'', ''decisions'', ''questions''])"
proof -
  have p: "\<exists>r. analyze_with_patterns self txt = Inr r \<and>
        map fst r = [''actions'', ''decisions'', ''questions'']"
    by (simp add: analyze_with_patterns_three three_def)
  have s: "\<exists>r. analyze_with_spacy self spacy txt = Inr r \<and>
        map fst r = [''actions'', ''decisions'', ''questions'']"
  proof (cases spacy)
    case None
    with p show ?thesis by (simp add: analyze_with_spacy_def)
  next
    case (Some nlp)
    show ?thesis
      unfolding Some by (simp add: analyze_with_spacy_three three_def)
  qed
  from p s show ?thesis by blast
qed

text \<open>
  C2. Priority. Under both strategies a unit is in the questions sequence exactly when the
  question test holds for it, in the decisions sequence exactly when the question test fails
  and the decision test holds, and in the actions sequence exactly when both fail and the
  action test holds. So a unit that passes the question test and also a decision or action
  test is in the questions sequence only.
\<close>

theorem priority_resolution:
  "(\<exists>a d q. analyze_with_patterns self txt =
              Inr [(''actions'', a), (''decisions'', d), (''questions'', q)] \<and>
      (\<forall>u \<in> set (line_units txt).
         (u \<in> set q \<longleftrightarrow> check_patterns u (question_patterns self)) \<and>
         (u \<in> set d \<longleftrightarrow> \<not> check_patterns u (question_patterns self) \<and>
                        check_patterns u (decision_patterns self)) \<and>
         (u \<in> set a \<longleftrightarrow> \<not> check_patterns u (question_patterns self) \<and>
                        \<not> check_patterns u (decision_patterns self) \<and>
                        check_patterns u (action_patterns self)))) \<and>
   (\<exists>a d q. analyze_with_spacy self (Some nlp) txt =
              Inr [(''actions'', a), (''decisions'', d), (''questions'', q)] \<and>
      (\<forall>u \<in> set (sentence_units nlp txt).
         (u \<in> set q \<longleftrightarrow> is_question u (tokens nlp u) = Inr True) \<and>
         (u \<in> set d \<longleftrightarrow> is_question u (tokens nlp u) \<noteq> Inr True \<and>
                        is_decision u (tokens nlp u) = Inr True) \<and>
         (u \<in> set a \<longleftrightarrow> is_question u (tokens nlp u) \<noteq> Inr True \<and>
                        is_decision u (tokens nlp u) \<noteq> Inr True \<and>
                        is_action u (tokens nlp u) = Inr True)))"
proof -
  have p: "\<exists>a d q. analyze_with_patterns self txt =
              Inr [(''actions'', a), (''decisions'', d), (''questions'', q)] \<and>
      (\<forall>u \<in> set (line_units txt).
         (u \<in> set q \<longleftrightarrow> check_patterns u (question_patterns self)) \<and>
         (u \<in> set d \<longleftrightarrow> \<not> check_patterns u (question_patterns self) \<and>
                        check_patterns u (decision_patterns self)) \<and>
         (u \<in> set a \<longleftrightarrow> \<not> check_patterns u (question_patterns self) \<and>
                        \<not> check_patterns u (decision_patterns self) \<and>
                        check_patterns u (action_patterns self)))"
    unfolding analyze_with_patterns_three three_def
    by (simp add: pat_a_def pat_d_def pat_q_def)
  have s: "\<exists>a d q. analyze_with_spacy self (Some nlp) txt =
              Inr [(''actions'', a), (''decisions'', d), (''questions'', q)] \<and>
      (\<forall>u \<in> set (sentence_units nlp txt).
         (u \<in> set q \<longleftrightarrow> is_question u (tokens nlp u) = Inr True) \<and>
         (u \<in> set d \<longleftrightarrow> is_question u (tokens nlp u) \<noteq> Inr True \<and>
                        is_decision u (tokens nlp u) = Inr True) \<and>
         (u \<in> set a \<longleftrightarrow> is_question u (tokens nlp u) \<noteq> Inr True \<and>
                        is_decision u (tokens nlp u) \<noteq> Inr True \<and>
                        is_action u (tokens nlp u) = Inr True))"
    unfolding analyze_with_spacy_three three_def
    by (simp add: set_list_fromkeys sp_a_def sp_d_def sp_q_def holds_def)
  from p s show ?thesis by blast
qed

lemma must_we_unit: "line_units ''Must we?'' = [''Must we?'']"
  by code_simp

lemma must_we_sentence: "sentence_units first_word_nlp ''Must we?'' = [''Must we?'']"
  by code_simp

lemma must_we_question_pattern: "check_patterns ''Must we?'' (question_patterns init)"
  by code_simp

lemma must_we_action_pattern: "check_patterns ''Must we?'' (action_patterns init)"
  by code_simp

lemma must_we_is_question:
  "is_question ''Must we?'' (tokens first_word_nlp ''Must we?'') = Inr True"
  by code_simp

lemma must_we_is_action:
  "is_action ''Must we?'' (tokens first_word_nlp ''Must we?'') = Inr True"
  by code_simp

theorem priority_resolution_witness:
  "check_patterns ''Must we?'' (question_patterns init) \<and>
   check_patterns ''Must we?'' (action_patterns init) \<and>
   is_question ''Must we?'' (tokens first_word_nlp ''Must we?'') = Inr True \<and>
   is_action ''Must we?'' (tokens first_word_nlp ''Must we?'') = Inr True \<and>
   (\<exists>a d q. analyze_with_patterns init ''Must we?'' =
              Inr [(''actions'', a), (''decisions'', d), (''questions'', q)] \<and>
      ''Must we?'' \<in> set q \<and> ''Must we?'' \<notin> set d \<and> ''Must we?'' \<notin> set a) \<and>
   (\<exists>a d q. analyze_with_spacy init (Some first_word_nlp) ''Must we?'' =
              Inr [(''actions'', a), (''decisions'', d), (''questions'', q)] \<and>
      ''Must we?'' \<in> set q \<and> ''Must we?'' \<notin> set d \<and> ''Must we?'' \<notin> set a)"
  using priority_resolution [of init "''Must we?''" first_word_nlp]
  unfolding must_we_unit must_we_sentence
  using must_we_question_pattern must_we_action_pattern must_we_is_question must_we_is_action
  by auto

subsection \<open>One unambiguous sentence\<close>

lemma friday_strip: "strip ''We decided to ship on Friday.'' = ''We decided to ship on Friday.''"
  by code_simp

lemma friday_no_mark: "\<not> str_in ''?'' ''We decided to ship on Friday.''"
  by code_simp

lemma friday_no_uncertainty:
  "\<not> list_ex (\<lambda>phrase. str_in phrase (str_lower ''We decided to ship on Friday.''))
       uncertainty_phrases"
  by code_simp

lemma friday_decided:
  "list_ex (\<lambda>verb. str_in verb (str_lower ''We decided to ship on Friday.'')) decision_verbs"
  by code_simp

lemma friday_prefixes:
  "list_all (\<lambda>p. str_lower p \<notin> set question_words \<and> str_lower p \<notin> set aux_verbs)
     (prefixes ''We decided to ship on Friday.'')"
  by code_simp

lemma friday_first_token:
  assumes "prefix p ''We decided to ship on Friday.''"
  shows "str_lower p \<notin> set question_words \<and> str_lower p \<notin> set aux_verbs"
proof -
  from assms have "p \<in> set (prefixes ''We decided to ship on Friday.'')"
    by (simp only: in_set_prefixes)
  with friday_prefixes show ?thesis
    by (simp only: list_all_iff) blast
qed

lemma friday_not_question:
  assumes "case doc of [] \<Rightarrow> True | t # _ \<Rightarrow> prefix (tok_text t) ''We decided to ship on Friday.''"
  shows "is_question ''We decided to ship on Friday.'' doc = Inr False"
proof (cases doc)
  case Nil
  then show ?thesis
    using friday_no_mark friday_no_uncertainty
    by (simp add: is_question_def question_words_def)
next
  case (Cons t rest)
  with assms have "prefix (tok_text t) ''We decided to ship on Friday.''" by simp
  then have "str_lower (tok_text t) \<notin> set question_words \<and>
             str_lower (tok_text t) \<notin> set aux_verbs"
    by (rule friday_first_token)
  then show ?thesis
    using friday_no_mark friday_no_uncertainty Cons
    by (simp add: is_question_def doc_get_def)
qed

lemma friday_is_decision: "is_decision ''We decided to ship on Friday.'' doc = Inr True"
  using friday_decided by (simp add: is_decision_def Let_def)

lemma friday_patterns:
  "analyze_with_patterns init ''We decided to ship on Friday.'' =
     Inr [(''actions'', []), (''decisions'', [''We decided to ship on Friday.'']),
          (''questions'', [])]"
  by code_simp

lemma friday_first_word:
  "tokens first_word_nlp ''We decided to ship on Friday.'' =
     [\<lparr> tok_text = ''We'', tok_pos = ''X'', tok_tag = [], tok_lemma = [], tok_ent_type = [] \<rparr>]"
  by code_simp

text \<open>
  C3. On \<open>We decided to ship on Friday.\<close> the pattern-matching strategy returns that text as
  the only decision and no action or question. The annotation-based strategy returns the
  same, for every pipeline that takes the text as one sentence and whose first token, if
  there is one, is an initial piece of the text.
\<close>

theorem scenario_decided:
  "analyze_with_patterns init ''We decided to ship on Friday.'' =
     Inr [(''actions'', []), (''decisions'', [''We decided to ship on Friday.'']),
          (''questions'', [])] \<and>
   (sents nlp ''We decided to ship on Friday.'' = [''We decided to ship on Friday.''] \<and>
    (case tokens nlp ''We decided to ship on Friday.'' of
       [] \<Rightarrow> True | t # _ \<Rightarrow> prefix (tok_text t) ''We decided to ship on Friday.'') \<longrightarrow>
    analyze_with_spacy self (Some nlp) ''We decided to ship on Friday.'' =
      Inr [(''actions'', []), (''decisions'', [''We decided to ship on Friday.'']),
           (''questions'', [])])"
proof -
  have s: "analyze_with_spacy self (Some nlp) ''We decided to ship on Friday.'' =
      Inr [(''actions'', []), (''decisions'', [''We decided to ship on Friday.'']),
           (''questions'', [])]"
    if h1: "sents nlp ''We decided to ship on Friday.'' = [''We decided to ship on Friday.'']"
    and h2: "case tokens nlp ''We decided to ship on Friday.'' of
       [] \<Rightarrow> True | t # _ \<Rightarrow> prefix (tok_text t) ''We decided to ship on Friday.''"
  proof -
    have u: "sentence_units nlp ''We decided to ship on Friday.'' =
               [''We decided to ship on Friday.'']"
      unfolding sentence_units_def h1 by (simp add: friday_strip)
    have q: "\<not> sp_q nlp ''We decided to ship on Friday.''"
      using friday_not_question [OF h2] by (simp add: sp_q_def holds_def)
    have d: "sp_d nlp ''We decided to ship on Friday.''"
      using q friday_is_decision by (simp add: sp_d_def holds_def)
    have a: "\<not> sp_a nlp ''We decided to ship on Friday.''"
      using friday_is_decision by (simp add: sp_a_def holds_def)
    show ?thesis
      unfolding analyze_with_spacy_three u
      using q d a by (simp add: three_def list_fromkeys_def)
  qed
  with friday_patterns show ?thesis by blast
qed

theorem scenario_decided_witness:
  "sents first_word_nlp ''We decided to ship on Friday.'' = [''We decided to ship on Friday.''] \<and>
   (case tokens first_word_nlp ''We decided to ship on Friday.'' of
       [] \<Rightarrow> True | t # _ \<Rightarrow> prefix (tok_text t) ''We decided to ship on Friday.'') \<and>
   analyze_with_spacy init (Some first_word_nlp) ''We decided to ship on Friday.'' =
     Inr [(''actions'', []), (''decisions'', [''We decided to ship on Friday.'']),
          (''questions'', [])]"
proof -
  have h1: "sents first_word_nlp ''We decided to ship on Friday.'' =
              [''We decided to ship on Friday.'']"
    by (simp add: first_word_nlp_def)
  have h2: "case tokens first_word_nlp ''We decided to ship on Friday.'' of
       [] \<Rightarrow> True | t # _ \<Rightarrow> prefix (tok_text t) ''We decided to ship on Friday.''"
    unfolding friday_first_word by simp
  from scenario_decided [of first_word_nlp init] h1 h2 show ?thesis by blast
qed

text \<open>
  C5. On an input that is empty or all whitespace, the pattern-matching strategy returns the
  three empty sequences, and so does the annotation-based entry point without the
  capability, and with it for every pipeline whose sentence texts are pieces of the input.
  None of them returns an error.
\<close>

theorem whitespace_input_empty:
  "list_all isspace txt \<Longrightarrow>
     analyze_with_patterns self txt =
       Inr [(''actions'', []), (''decisions'', []), (''questions'', [])] \<and>
     analyze_with_spacy self None txt =
       Inr [(''actions'', []), (''decisions'', []), (''questions'', [])] \<and>
     (list_all (\<lambda>s. sublist s txt) (sents nlp txt) \<longrightarrow>
        analyze_with_spacy self (Some nlp) txt =
          Inr [(''actions'', []), (''decisions'', []), (''questions'', [])])"
proof -
  assume a: "list_all isspace txt"
  have p: "analyze_with_patterns self txt =
             Inr [(''actions'', []), (''decisions'', []), (''questions'', [])]"
    by (simp add: analyze_with_patterns_three line_units_space [OF a] three_def)
  have n: "analyze_with_spacy self None txt = analyze_with_patterns self txt"
    by (simp add: analyze_with_spacy_def)
  have s: "list_all (\<lambda>s. sublist s txt) (sents nlp txt) \<longrightarrow>
        analyze_with_spacy self (Some nlp) txt =
          Inr [(''actions'', []), (''decisions'', []), (''questions'', [])]"
    by (simp add: analyze_with_spacy_three sentence_units_space [OF a] three_def
        list_fromkeys_def)
  from p n s show ?thesis by simp
qed

theorem whitespace_input_empty_witness:
  "list_all isspace ('' '' @ [nl, CHR 0x09]) \<and>
   list_all (\<lambda>s. sublist s ('' '' @ [nl, CHR 0x09]))
     (sents first_word_nlp ('' '' @ [nl, CHR 0x09])) \<and>
   analyze_with_patterns init ('' '' @ [nl, CHR 0x09]) =
     Inr [(''actions'', []), (''decisions'', []), (''questions'', [])] \<and>
   analyze_with_spacy init None ('' '' @ [nl, CHR 0x09]) =
     Inr [(''actions'', []), (''decisions'', []), (''questions'', [])] \<and>
   analyze_with_spacy init (Some first_word_nlp) ('' '' @ [nl, CHR 0x09]) =
     Inr [(''actions'', []), (''decisions'', []), (''questions'', [])]"
proof -
  have h1: "list_all isspace ('' '' @ [nl, CHR 0x09])"
    by (simp add: isspace_def nl_def)
  have h2: "list_all (\<lambda>s. sublist s ('' '' @ [nl, CHR 0x09]))
              (sents first_word_nlp ('' '' @ [nl, CHR 0x09]))"
    by (simp add: first_word_nlp_def)
  from whitespace_input_empty [OF h1, of init first_word_nlp] h1 h2 show ?thesis by blast
qed

text \<open>
  C8. Two calls in a row on the same text return dicts with the same contents: the second
  call, started in the store the first one left, returns a new dict equal to the one the
  first call returned, and leaves the first one as it was. This holds from every store,
  whatever earlier calls left in it, and for both entry points.
\<close>

theorem idempotence:
  "(\<exists>r1 st1 r2 st2.
      analyze_with_patterns_store st txt = Inr (r1, st1) \<and>
      analyze_with_patterns_store st1 txt = Inr (r2, st2) \<and>
      r2 \<noteq> r1 \<and> heap st2 r2 = heap st1 r1 \<and> heap st2 r1 = heap st1 r1 \<and>
      analyze_with_patterns (self_analyzer st) txt = Inr (heap st1 r1) \<and>
      self_analyzer st2 = self_analyzer st \<and> spacy_global st2 = spacy_global st) \<and>
   (\<exists>r1 st1 r2 st2.
      analyze_with_spacy_store st txt = Inr (r1, st1) \<and>
      analyze_with_spacy_store st1 txt = Inr (r2, st2) \<and>
      r2 \<noteq> r1 \<and> heap st2 r2 = heap st1 r1 \<and> heap st2 r1 = heap st1 r1 \<and>
      analyze_with_spacy (self_analyzer st) (spacy_global st) txt = Inr (heap st1 r1) \<and>
      self_analyzer st2 = self_analyzer st \<and> spacy_global st2 = spacy_global st)"
proof -
  obtain d where d: "analyze_with_patterns (self_analyzer st) txt = Inr d"
    by (simp add: analyze_with_patterns_three)
  have p: "\<exists>r1 st1 r2 st2.
      analyze_with_patterns_store st txt = Inr (r1, st1) \<and>
      analyze_with_patterns_store st1 txt = Inr (r2, st2) \<and>
      r2 \<noteq> r1 \<and> heap st2 r2 = heap st1 r1 \<and> heap st2 r1 = heap st1 r1 \<and>
      analyze_with_patterns (self_analyzer st) txt = Inr (heap st1 r1) \<and>
      self_analyzer st2 = self_analyzer st \<and> spacy_global st2 = spacy_global st"
    by (simp add: analyze_with_patterns_store_pure d)
  obtain d' where d': "analyze_with_spacy (self_analyzer st) (spacy_global st) txt = Inr d'"
    by (cases "spacy_global st")
       (simp_all add: analyze_with_spacy_three,
        simp add: analyze_with_spacy_def analyze_with_patterns_three)
  have s: "\<exists>r1 st1 r2 st2.
      analyze_with_spacy_store st txt = Inr (r1, st1) \<and>
      analyze_with_spacy_store st1 txt = Inr (r2, st2) \<and>
      r2 \<noteq> r1 \<and> heap st2 r2 = heap st1 r1 \<and> heap st2 r1 = heap st1 r1 \<and>
      analyze_with_spacy (self_analyzer st) (spacy_global st) txt = Inr (heap st1 r1) \<and>
      self_analyzer st2 = self_analyzer st \<and> spacy_global st2 = spacy_global st"
    by (simp add: analyze_with_spacy_store_pure d')
  from p s show ?thesis by blast
qed

subsection \<open>Keywords inside longer words\<close>

lemma sublist_decided: "sublist ''decided'' ''undecided''"
  using sublist_append_leftI [of "''decided''" "''un''"] by simp

lemma sublist_will: "sublist ''will'' ''willing''"
  using sublist_append_rightI [of "''will''" "''ing''"] by simp

text \<open>
  C9. The surface keyword checks of the annotation-based decision and action tests are
  substring checks on the lowercased text. The decision test passes exactly when a decision
  keyword is a substring of the lowercased text or the token loop finds a decision verb; the
  action test passes exactly when an action indicator is a substring of it or the token
  checks alone pass. With no tokens each test is that containment and nothing else. A
  keyword inside a longer word counts: \<open>undecided\<close> passes the decision test and \<open>willing\<close>
  the action test.
\<close>

theorem surface_checks_are_substring_checks:
  "(is_decision s doc = Inr True \<longleftrightarrow>
      (\<exists>k\<in>set (decision_verbs @ decision_nouns @ passive_indicators). sublist k (str_lower s)) \<or>
      decision_loop doc = Inr True) \<and>
   (is_action s doc = Inr True \<longleftrightarrow>
      (\<exists>k\<in>set action_indicators. sublist k (str_lower s)) \<or> is_action [] doc = Inr True) \<and>
   (is_decision s [] = Inr True \<longleftrightarrow>
      (\<exists>k\<in>set (decision_verbs @ decision_nouns @ passive_indicators). sublist k (str_lower s))) \<and>
   (is_action s [] = Inr True \<longleftrightarrow> (\<exists>k\<in>set action_indicators. sublist k (str_lower s))) \<and>
   (sublist ''undecided'' (str_lower s) \<longrightarrow> is_decision s doc = Inr True) \<and>
   (sublist ''willing'' (str_lower s) \<longrightarrow> is_action s doc = Inr True)"
proof -
  have d0: "is_decision s [] = Inr True \<longleftrightarrow>
      (\<exists>k\<in>set (decision_verbs @ decision_nouns @ passive_indicators). sublist k (str_lower s))"
    using is_decision_iff [of s "[]"] by simp
  have a0: "is_action s [] = Inr True \<longleftrightarrow> (\<exists>k\<in>set action_indicators. sublist k (str_lower s))"
    using is_action_iff [of s "[]"] by (simp add: is_action_empty_doc)
  have d': "is_decision s doc = Inr True" if "sublist ''undecided'' (str_lower s)"
  proof -
    have "sublist ''decided'' (str_lower s)"
      using sublist_decided that by (rule sublist_order.order_trans)
    moreover have "''decided'' \<in> set (decision_verbs @ decision_nouns @ passive_indicators)"
      by (simp add: decision_verbs_def)
    ultimately show ?thesis unfolding is_decision_iff by blast
  qed
  have a': "is_action s doc = Inr True" if "sublist ''willing'' (str_lower s)"
  proof -
    have "sublist ''will'' (str_lower s)"
      using sublist_will that by (rule sublist_order.order_trans)
    moreover have "''will'' \<in> set action_indicators"
      by (simp add: action_indicators_def)
    ultimately show ?thesis unfolding is_action_iff [of s doc] by blast
  qed
  from is_decision_iff [of s doc] is_action_iff [of s doc] d0 a0 d' a' show ?thesis by blast
qed

lemma lower_undecided:
  "str_lower ''They are Undecided and willing'' = ''they are undecided and willing''"
  by code_simp

lemma sub_undecided: "sublist ''undecided'' ''they are undecided and willing''"
  using sublist_appendI [of "''undecided''" "''they are ''" "'' and willing''"] by simp

lemma sub_willing: "sublist ''willing'' ''they are undecided and willing''"
  using sublist_append_leftI [of "''willing''" "''they are undecided and ''"] by simp

lemma noon_no_decision_keyword:
  "\<not> list_ex (\<lambda>k. str_in k (str_lower ''We met at noon''))
       (decision_verbs @ decision_nouns @ passive_indicators)"
  by code_simp

lemma noon_no_action_keyword:
  "\<not> list_ex (\<lambda>k. str_in k (str_lower ''We met at noon'')) action_indicators"
  by code_simp

theorem surface_checks_are_substring_checks_witness:
  "sublist ''undecided'' (str_lower ''They are Undecided and willing'') \<and>
   sublist ''willing'' (str_lower ''They are Undecided and willing'') \<and>
   is_decision ''They are Undecided and willing'' [] = Inr True \<and>
   is_action ''They are Undecided and willing'' [] = Inr True \<and>
   \<not> (\<exists>k\<in>set (decision_verbs @ decision_nouns @ passive_indicators).
         sublist k (str_lower ''We met at noon'')) \<and>
   \<not> (\<exists>k\<in>set action_indicators. sublist k (str_lower ''We met at noon'')) \<and>
   is_decision ''We met at noon'' [] \<noteq> Inr True \<and>
   is_action ''We met at noon'' [] \<noteq> Inr True"
proof -
  have u: "sublist ''undecided'' (str_lower ''They are Undecided and willing'')"
    unfolding lower_undecided by (rule sub_undecided)
  have w: "sublist ''willing'' (str_lower ''They are Undecided and willing'')"
    unfolding lower_undecided by (rule sub_willing)
  have nd: "\<not> (\<exists>k\<in>set (decision_verbs @ decision_nouns @ passive_indicators).
         sublist k (str_lower ''We met at noon''))"
    using noon_no_decision_keyword unfolding list_ex_str_in .
  have na: "\<not> (\<exists>k\<in>set action_indicators. sublist k (str_lower ''We met at noon''))"
    using noon_no_action_keyword unfolding list_ex_str_in .
  from surface_checks_are_substring_checks [of "''They are Undecided and willing''" "[]"]
       surface_checks_are_substring_checks [of "''We met at noon''" "[]"]
       u w nd na
  show ?thesis by blast
qed

end
